theory Spec2Isabelle
  imports Complex_Main "HOL-Library.Word" "HOL-Library.Log_Nat" "HOL-Library.Signed_Division"
begin

unbundle bit_operations_syntax

section \<open>Go values\<close>

text \<open>
  The codec works on Go's fixed-width unsigned integers and on byte sequences. A Go
  string is an immutable sequence of bytes (the UTF-8 encoding of its text), so a
  string is a list of bytes here and \<open>len(s)\<close> is its length. A \<open>float32\<close> is held by
  its IEEE-754 binary32 bit pattern: \<open>math.Float32bits\<close> and \<open>math.Float32frombits\<close>
  reinterpret the same 32 bits and compute nothing.
\<close>

type_synonym byte = "8 word"
type_synonym uint16 = "16 word"
type_synonym uint32 = "32 word"
type_synonym gostring = "byte list"

datatype float32 = Float32frombits (Float32bits: uint32)

text \<open>
  The errors the codec returns. \<open>EOF\<close> is \<open>io.EOF\<close>, which \<open>bytes.Buffer.ReadBytes\<close>
  returns when the delimiter is missing; the other three are the \<open>fmt.Errorf\<close>
  messages of the codec with their arguments; \<open>PlatformError\<close> is an error of a
  decoder outside the codec (\<open>GobDecode\<close>, \<open>UnmarshalBinary\<close>).
\<close>

datatype error =
    EOF
  | IncorrectBytes nat string
  | ReadButExpected nat nat
  | MismatchedLengths nat nat
  | PlatformError string

text \<open>
  The specification's TruncatedInput: fewer bytes remain than the operation requires.
\<close>

fun TruncatedInput :: "error \<Rightarrow> bool" where
  "TruncatedInput EOF = True"
| "TruncatedInput (IncorrectBytes n k) = True"
| "TruncatedInput (ReadButExpected n l) = True"
| "TruncatedInput (MismatchedLengths l n) = False"
| "TruncatedInput (PlatformError m) = False"

text \<open>
  A function of Go that returns \<open>(T, error)\<close> returns the pair of its value and
  \<open>error option\<close> (\<open>None\<close> is \<open>nil\<close>), together with the buffer as it leaves it: the
  buffer is passed by pointer and keeps what a failed call consumed. A result of slice
  type is a \<open>list option\<close>, where \<open>None\<close> is the \<open>nil\<close> slice.
\<close>

section \<open>bytes.Buffer\<close>

text \<open>
  \<open>bytes.Buffer\<close> holds its contents \<open>buf\<close> and the read offset \<open>off\<close>: the unread
  bytes are \<open>buf[off:]\<close>, reads advance \<open>off\<close> and writes append to \<open>buf\<close>. Growing
  the backing array is not modelled (\<open>Write\<close> panics only when memory runs out, and
  its error is always \<open>nil\<close>).
\<close>

record Buffer =
  buf :: "byte list"
  off :: nat

definition NewBuffer :: "byte list \<Rightarrow> Buffer" where
  "NewBuffer bs = \<lparr>buf = bs, off = 0\<rparr>"

definition Buffer_Bytes :: "Buffer \<Rightarrow> byte list" where
  "Buffer_Bytes b = drop (off b) (buf b)"

definition Buffer_Len :: "Buffer \<Rightarrow> nat" where
  "Buffer_Len b = length (buf b) - off b"

text \<open>
  \<open>Next(n)\<close> returns the next \<open>n\<close> unread bytes, or all of them when fewer than
  \<open>n\<close> are left, and advances past them.
\<close>

definition Buffer_Next :: "Buffer \<Rightarrow> nat \<Rightarrow> byte list \<times> Buffer" where
  "Buffer_Next b n =
     (let m = Buffer_Len b;
          n' = (if n > m then m else n);
          data = take n' (drop (off b) (buf b))
      in (data, b\<lparr>off := off b + n'\<rparr>))"

fun IndexByte :: "byte list \<Rightarrow> byte \<Rightarrow> int" where
  "IndexByte [] c = - 1"
| "IndexByte (x # xs) c =
     (if x = c then 0
      else (let i = IndexByte xs c in if i < 0 then - 1 else i + 1))"

text \<open>
  \<open>ReadBytes(delim)\<close> reads up to and including the first \<open>delim\<close>. Without one it
  returns all the unread bytes with \<open>io.EOF\<close> and leaves the buffer empty.
\<close>

definition Buffer_ReadBytes :: "Buffer \<Rightarrow> byte \<Rightarrow> (byte list \<times> error option) \<times> Buffer" where
  "Buffer_ReadBytes b delim =
     (let i = IndexByte (drop (off b) (buf b)) delim
      in if i < 0
         then ((drop (off b) (buf b), Some EOF), b\<lparr>off := length (buf b)\<rparr>)
         else ((take (nat i + 1) (drop (off b) (buf b)), None),
               b\<lparr>off := off b + nat i + 1\<rparr>))"

definition Buffer_Write :: "Buffer \<Rightarrow> byte list \<Rightarrow> (nat \<times> error option) \<times> Buffer" where
  "Buffer_Write b p = ((length p, None), b\<lparr>buf := buf b @ p\<rparr>)"

definition Buffer_WriteString :: "Buffer \<Rightarrow> gostring \<Rightarrow> (nat \<times> error option) \<times> Buffer" where
  "Buffer_WriteString b s = ((length s, None), b\<lparr>buf := buf b @ s\<rparr>)"

definition Buffer_WriteByte :: "Buffer \<Rightarrow> byte \<Rightarrow> error option \<times> Buffer" where
  "Buffer_WriteByte b c = (None, b\<lparr>buf := buf b @ [c]\<rparr>)"

section \<open>encoding/binary, little endian\<close>

text \<open>
  \<open>make([]byte, n)\<close> is \<open>n\<close> zero bytes. \<open>PutUint16\<close> and \<open>PutUint32\<close> store into the
  slice they are given; \<open>Uint16\<close> and \<open>Uint32\<close> read its first bytes. The codec calls
  them on slices of exactly 2 and 4 bytes only (it checks the length first), so Go's
  bounds check never fails there.
\<close>

definition make_bytes :: "nat \<Rightarrow> byte list" where
  "make_bytes n = replicate n 0"

definition LittleEndian_PutUint16 :: "byte list \<Rightarrow> uint16 \<Rightarrow> byte list" where
  "LittleEndian_PutUint16 b v = b[0 := ucast v, 1 := ucast (drop_bit 8 v)]"

definition LittleEndian_PutUint32 :: "byte list \<Rightarrow> uint32 \<Rightarrow> byte list" where
  "LittleEndian_PutUint32 b v =
     b[0 := ucast v, 1 := ucast (drop_bit 8 v),
       2 := ucast (drop_bit 16 v), 3 := ucast (drop_bit 24 v)]"

definition LittleEndian_Uint16 :: "byte list \<Rightarrow> uint16" where
  "LittleEndian_Uint16 b = ucast (b ! 0) OR push_bit 8 (ucast (b ! 1))"

definition LittleEndian_Uint32 :: "byte list \<Rightarrow> uint32" where
  "LittleEndian_Uint32 b =
     ucast (b ! 0) OR push_bit 8 (ucast (b ! 1)) OR
     push_bit 16 (ucast (b ! 2)) OR push_bit 24 (ucast (b ! 3))"

section \<open>The scalar codec\<close>

definition ReadByte :: "Buffer \<Rightarrow> (byte \<times> error option) \<times> Buffer" where
  "ReadByte b =
     (let (d, b') = Buffer_Next b 1
      in if length d \<noteq> 1 then ((0, Some (IncorrectBytes (length d) ''byte'')), b')
         else ((d ! 0, None), b'))"

definition WriteByte :: "Buffer \<Rightarrow> byte \<Rightarrow> error option \<times> Buffer" where
  "WriteByte b i = Buffer_WriteByte b i"

definition ReadBool :: "Buffer \<Rightarrow> (bool \<times> error option) \<times> Buffer" where
  "ReadBool b =
     (let (d, b') = Buffer_Next b 1
      in if length d \<noteq> 1 then ((False, Some (IncorrectBytes (length d) ''bool'')), b')
         else ((d ! 0 \<noteq> 0, None), b'))"

definition WriteBool :: "Buffer \<Rightarrow> bool \<Rightarrow> error option \<times> Buffer" where
  "WriteBool b v = (let d = (if v then 1 else 0) in Buffer_WriteByte b d)"

definition ReadUint32 :: "Buffer \<Rightarrow> (uint32 \<times> error option) \<times> Buffer" where
  "ReadUint32 b =
     (let (d, b') = Buffer_Next b 4
      in if length d \<noteq> 4 then ((0, Some (IncorrectBytes (length d) ''Uint32'')), b')
         else ((LittleEndian_Uint32 d, None), b'))"

definition ReadUint16 :: "Buffer \<Rightarrow> (uint16 \<times> error option) \<times> Buffer" where
  "ReadUint16 b =
     (let (d, b') = Buffer_Next b 2
      in if length d \<noteq> 2 then ((0, Some (IncorrectBytes (length d) ''Uint16'')), b')
         else ((LittleEndian_Uint16 d, None), b'))"

definition WriteUint16 :: "Buffer \<Rightarrow> uint16 \<Rightarrow> error option \<times> Buffer" where
  "WriteUint16 b i =
     (let v = LittleEndian_PutUint16 (make_bytes 2) i;
          ((l, err), b') = Buffer_Write b v
      in if err = None
         then (if l \<noteq> length v then (Some (MismatchedLengths l (length v)), b')
               else (err, b'))
         else (err, b'))"

definition WriteUint32 :: "Buffer \<Rightarrow> uint32 \<Rightarrow> error option \<times> Buffer" where
  "WriteUint32 b i =
     (let v = LittleEndian_PutUint32 (make_bytes 4) i;
          ((l, err), b') = Buffer_Write b v
      in if err = None
         then (if l \<noteq> length v then (Some (MismatchedLengths l (length v)), b')
               else (err, b'))
         else (err, b'))"

definition WriteFloat32 :: "Buffer \<Rightarrow> float32 \<Rightarrow> error option \<times> Buffer" where
  "WriteFloat32 b f = WriteUint32 b (Float32bits f)"

definition ReadFloat32 :: "Buffer \<Rightarrow> (float32 \<times> error option) \<times> Buffer" where
  "ReadFloat32 b =
     (let ((f, err), b') = ReadUint32 b
      in if err \<noteq> None then ((Float32frombits 0, err), b')
         else ((Float32frombits f, None), b'))"

section \<open>The container codec\<close>

definition ReadString :: "Buffer \<Rightarrow> (gostring \<times> error option) \<times> Buffer" where
  "ReadString b =
     (let ((s, err), b') = Buffer_ReadBytes b 0
      in if err = None then ((take (length s - 1) s, err), b')
         else (([], err), b'))"

text \<open>
  \<open>WriteString\<close> drops the result of \<open>b.WriteByte(0)\<close> and returns the error of
  \<open>b.WriteString(s)\<close>.
\<close>

definition WriteString :: "Buffer \<Rightarrow> gostring \<Rightarrow> error option \<times> Buffer" where
  "WriteString b s =
     (let ((l, err), b1) = Buffer_WriteString b s
      in if err = None
         then (if l \<noteq> length s then (Some (MismatchedLengths l (length s)), b1)
               else (let (r, b2) = Buffer_WriteByte b1 0 in (err, b2)))
         else (err, b1))"

text \<open>The elements of a slice, \<open>nil\<close> having none.\<close>

fun elems :: "'a list option \<Rightarrow> 'a list" where
  "elems None = []"
| "elems (Some xs) = xs"

text \<open>
  \<open>Next\<close> hands out a slice of the buffer's array, and that slice is \<open>nil\<close> when
  the array was never allocated. A buffer has no array until a byte is written to it:
  the buffer with no contents is the zero value \<open>bytes.Buffer{}\<close> (as \<open>NewBuffer\<close> of
  \<open>nil\<close> is), and every other buffer has its array.
\<close>

definition Buffer_Next_slice :: "Buffer \<Rightarrow> nat \<Rightarrow> byte list option \<times> Buffer" where
  "Buffer_Next_slice b n =
     (let (data, b') = Buffer_Next b n
      in (if buf b = [] then None else Some data, b'))"

text \<open>
  \<open>int(l)\<close> of a \<open>uint32\<close> is its value where \<open>int\<close> has 64 bits, which is assumed.
  \<open>ReadByteArray\<close> returns what \<open>Next\<close> gave it and the \<open>nil\<close> error of
  \<open>ReadUint32\<close>; it does not look at the length of that slice.
\<close>

definition ReadByteArray :: "Buffer \<Rightarrow> (byte list option \<times> error option) \<times> Buffer" where
  "ReadByteArray b =
     (let ((l, err), b1) = ReadUint32 b
      in if err \<noteq> None then ((None, err), b1)
         else (let (v, b2) = Buffer_Next_slice b1 (unat l) in ((v, err), b2)))"

text \<open>The length \<open>l\<close> that \<open>ReadByteArrayNoLength\<close> is given is not negative.\<close>

definition ReadByteArrayNoLength ::
  "Buffer \<Rightarrow> nat \<Rightarrow> (byte list option \<times> error option) \<times> Buffer" where
  "ReadByteArrayNoLength b l =
     (let (v, b') = Buffer_Next_slice b l
      in if length (elems v) \<noteq> l
         then ((None, Some (ReadButExpected (length (elems v)) l)), b')
         else ((v, None), b'))"

definition WriteByteArrayNoLength :: "Buffer \<Rightarrow> byte list \<Rightarrow> error option \<times> Buffer" where
  "WriteByteArrayNoLength b v =
     (let ((l, err), b') = Buffer_Write b v
      in if err = None
         then (if l \<noteq> length v then (Some (MismatchedLengths l (length v)), b')
               else (err, b'))
         else (err, b'))"

text \<open>\<open>uint32(len(v))\<close> and \<open>uint16(len(v))\<close> keep the low 32 and 16 bits of the length.\<close>

definition WriteByteArray :: "Buffer \<Rightarrow> byte list \<Rightarrow> error option \<times> Buffer" where
  "WriteByteArray b v =
     (let (err, b1) = WriteUint32 b (word_of_nat (length v))
      in if err \<noteq> None then (err, b1)
         else WriteByteArrayNoLength b1 v)"

fun WriteStrings_range :: "Buffer \<Rightarrow> gostring list \<Rightarrow> error option \<times> Buffer" where
  "WriteStrings_range b [] = (None, b)"
| "WriteStrings_range b (i # v) =
     (let (err, b') = WriteString b i
      in if err \<noteq> None then (err, b')
         else WriteStrings_range b' v)"

definition WriteStrings :: "Buffer \<Rightarrow> gostring list \<Rightarrow> error option \<times> Buffer" where
  "WriteStrings b v =
     (let (err, b1) = WriteUint16 b (word_of_nat (length v))
      in if err \<noteq> None then (err, b1)
         else WriteStrings_range b1 v)"

text \<open>
  The loop \<open>for i := uint16(0); i < c; i++\<close> of \<open>ReadStrings\<close>, from the state
  \<open>(b, i, v)\<close>: \<open>i\<close> stays below \<open>c\<close>, so \<open>i++\<close> never wraps and the counter is a
  natural number. The assignment \<open>v[i], err = ReadString(b)\<close> stores the string
  before the error is tested.
\<close>

function ReadStrings_loop ::
  "Buffer \<Rightarrow> nat \<Rightarrow> nat \<Rightarrow> gostring list \<Rightarrow> (gostring list option \<times> error option) \<times> Buffer" where
  "ReadStrings_loop b c i v =
     (if i < c
      then (case ReadString b of
              ((s, err), b') \<Rightarrow>
                if err \<noteq> None then ((None, err), b')
                else ReadStrings_loop b' c (i + 1) (v[i := s]))
      else ((Some v, None), b))"
  by pat_completeness auto
termination
  by (relation "measure (\<lambda>(b, c, i, v). c - i)") auto

definition ReadStrings :: "Buffer \<Rightarrow> (gostring list option \<times> error option) \<times> Buffer" where
  "ReadStrings b =
     (let ((c, err), b1) = ReadUint16 b
      in if err \<noteq> None then ((None, err), b1)
         else ReadStrings_loop b1 (unat c) 0 (replicate (unat c) []))"

fun WriteByteArrayArray_range :: "Buffer \<Rightarrow> byte list list \<Rightarrow> error option \<times> Buffer" where
  "WriteByteArrayArray_range b [] = (None, b)"
| "WriteByteArrayArray_range b (i # v) =
     (let (err, b') = WriteByteArray b i
      in if err \<noteq> None then (err, b')
         else WriteByteArrayArray_range b' v)"

definition WriteByteArrayArray :: "Buffer \<Rightarrow> byte list list \<Rightarrow> error option \<times> Buffer" where
  "WriteByteArrayArray b v =
     (let (err, b1) = WriteUint16 b (word_of_nat (length v))
      in if err \<noteq> None then (err, b1)
         else WriteByteArrayArray_range b1 v)"

function ReadByteArrayArray_loop ::
  "Buffer \<Rightarrow> nat \<Rightarrow> nat \<Rightarrow> byte list list \<Rightarrow>
   (byte list list option \<times> error option) \<times> Buffer" where
  "ReadByteArrayArray_loop b c i v =
     (if i < c
      then (case ReadByteArray b of
              ((s, err), b') \<Rightarrow>
                if err \<noteq> None then ((None, err), b')
                else ReadByteArrayArray_loop b' c (i + 1) (v[i := elems s]))
      else ((Some v, None), b))"
  by pat_completeness auto
termination
  by (relation "measure (\<lambda>(b, c, i, v). c - i)") auto

definition ReadByteArrayArray ::
  "Buffer \<Rightarrow> (byte list list option \<times> error option) \<times> Buffer" where
  "ReadByteArrayArray b =
     (let ((c, err), b1) = ReadUint16 b
      in if err \<noteq> None then ((None, err), b1)
         else ReadByteArrayArray_loop b1 (unat c) 0 (replicate (unat c) []))"

section \<open>Time, durations and float64\<close>

text \<open>
  A \<open>time.Time\<close> is the instant it denotes, in nanoseconds since Go's zero time
  (January 1, year 1, 00:00 UTC), so \<open>time.Time{}\<close> is 0; locations and monotonic
  readings are not modelled. A \<open>time.Duration\<close> is an \<open>int64\<close> count of
  nanoseconds: \<open>Sub\<close> saturates at the least and the greatest duration, and the
  product of two durations wraps around as \<open>int64\<close> arithmetic does.
\<close>

type_synonym Time = int
type_synonym Duration = int

definition minDuration :: Duration where
  "minDuration = - (2 ^ 63)"

definition maxDuration :: Duration where
  "maxDuration = 2 ^ 63 - 1"

definition int64 :: "int \<Rightarrow> int" where
  "int64 x = signed_take_bit 63 x"

definition Minute :: Duration where
  "Minute = 60 * 1000000000"

definition Hour :: Duration where
  "Hour = 60 * Minute"

definition Time_Sub :: "Time \<Rightarrow> Time \<Rightarrow> Duration" where
  "Time_Sub t u =
     (if minDuration \<le> t - u \<and> t - u \<le> maxDuration then t - u
      else if t < u then minDuration else maxDuration)"

definition Time_Add :: "Time \<Rightarrow> Duration \<Rightarrow> Time" where
  "Time_Add t d = t + d"

text \<open>
  A finite \<open>float64\<close> is the rational number it denotes. Every operation of IEEE-754
  binary64 returns the exact result rounded to the nearest number with a significand
  of 53 bits, ties to the even significand: \<open>ilog2 a\<close> is the exponent \<open>e\<close> with
  \<open>2\<^sup>e \<le> a < 2\<^sup>e\<^sup>+\<^sup>1\<close>, and the numbers of that binade are the multiples of
  \<open>2\<^sup>e\<^sup>-\<^sup>5\<^sup>2\<close>. The codec's values lie between \<open>10\<^sup>-\<^sup>1\<^sup>1\<close> and \<open>10\<^sup>9\<close> in
  magnitude (or are 0), far from overflow and from the subnormal numbers, which are
  not modelled.
\<close>

type_synonym float64 = rat

definition ilog2 :: "rat \<Rightarrow> int" where
  "ilog2 a = (if 1 \<le> a then bitlen \<lfloor>a\<rfloor> - 1 else - bitlen (\<lceil>1 / a\<rceil> - 1))"

definition round_half_even :: "rat \<Rightarrow> int" where
  "round_half_even q =
     (let f = \<lfloor>q\<rfloor>; r = q - of_int f
      in if r < 1 / 2 then f else if 1 / 2 < r then f + 1
         else if even f then f else f + 1)"

definition float64_round :: "rat \<Rightarrow> float64" where
  "float64_round x =
     (if x = 0 then 0
      else (let u = 2 powi (ilog2 \<bar>x\<bar> - 52)
            in of_int (round_half_even (x / u)) * u))"

definition float64_of_int :: "int \<Rightarrow> float64" where
  "float64_of_int i = float64_round (of_int i)"

definition float64_add :: "float64 \<Rightarrow> float64 \<Rightarrow> float64" where
  "float64_add x y = float64_round (x + y)"

definition float64_div :: "float64 \<Rightarrow> float64 \<Rightarrow> float64" where
  "float64_div x y = float64_round (x / y)"

text \<open>
  \<open>Duration.Minutes\<close> and \<open>Duration.Hours\<close> of package \<open>time\<close>: the integer
  quotient and remainder, which truncate towards zero in Go, then
  \<open>float64(min) + float64(nsec)/(60*1e9)\<close>.
\<close>

definition Duration_Minutes :: "Duration \<Rightarrow> float64" where
  "Duration_Minutes d =
     (let min = d sdiv Minute; nsec = d smod Minute
      in float64_add (float64_of_int min)
           (float64_div (float64_of_int nsec) 60000000000))"

definition Duration_Hours :: "Duration \<Rightarrow> float64" where
  "Duration_Hours d =
     (let hour = d sdiv Hour; nsec = d smod Hour
      in float64_add (float64_of_int hour)
           (float64_div (float64_of_int nsec) 3600000000000))"

text \<open>
  The largest power of two that is not above \<open>m\<close>, for \<open>m \<ge> 1\<close> (and 1 for
  \<open>m = 0\<close>): the weight of the leading bit of a minute count, which fixes the
  spacing of the \<open>float64\<close> numbers next to it.
\<close>

definition top_bit :: "int \<Rightarrow> int" where
  "top_bit m = 2 ^ nat (bitlen m - 1)"

text \<open>
  The conversion of a \<open>float64\<close> to an unsigned integer discards the fraction. When the
  integer does not fit the type, the conversion still succeeds and Go leaves the value
  to the implementation: it is the parameter \<open>oor\<close>. \<open>amd64_uint32\<close> and
  \<open>amd64_uint16\<close> are what the amd64 compiler does, which converts to a signed
  64-bit (32-bit) integer and keeps the low bits.
\<close>

definition truncate :: "rat \<Rightarrow> int" where
  "truncate x = (if 0 \<le> x then \<lfloor>x\<rfloor> else \<lceil>x\<rceil>)"

definition uint32_of_float64 :: "(float64 \<Rightarrow> uint32) \<Rightarrow> float64 \<Rightarrow> uint32" where
  "uint32_of_float64 oor x =
     (let n = truncate x in if 0 \<le> n \<and> n < 2 ^ 32 then word_of_int n else oor x)"

definition uint16_of_float64 :: "(float64 \<Rightarrow> uint16) \<Rightarrow> float64 \<Rightarrow> uint16" where
  "uint16_of_float64 oor x =
     (let n = truncate x in if 0 \<le> n \<and> n < 2 ^ 16 then word_of_int n else oor x)"

definition amd64_uint32 :: "float64 \<Rightarrow> uint32" where
  "amd64_uint32 x = word_of_int (truncate x)"

definition amd64_uint16 :: "float64 \<Rightarrow> uint16" where
  "amd64_uint16 x = word_of_int (truncate x)"

section \<open>The date and time codec\<close>

text \<open>
  The epoch \<open>IoDateBase\<close> is declared outside the files at hand; every function that
  uses it takes it as its parameter, after the conversion \<open>oor\<close> where there is one.
\<close>

definition GetDateInMinutes :: "(float64 \<Rightarrow> uint32) \<Rightarrow> Time \<Rightarrow> Time \<Rightarrow> uint32" where
  "GetDateInMinutes oor IoDateBase t =
     uint32_of_float64 oor (Duration_Minutes (Time_Sub t IoDateBase))"

definition GetDateFromMinutes :: "Time \<Rightarrow> uint32 \<Rightarrow> Time" where
  "GetDateFromMinutes IoDateBase t = Time_Add IoDateBase (int64 (Minute * uint t))"


definition WriteDateToUInt32 ::
  "(float64 \<Rightarrow> uint32) \<Rightarrow> Time \<Rightarrow> Buffer \<Rightarrow> Time \<Rightarrow> error option \<times> Buffer" where
  "WriteDateToUInt32 oor IoDateBase b t = WriteUint32 b (GetDateInMinutes oor IoDateBase t)"

definition ReadDate :: "Time \<Rightarrow> Buffer \<Rightarrow> (Time \<times> error option) \<times> Buffer" where
  "ReadDate IoDateBase b =
     (let ((d, err), b') = ReadUint16 b
      in if err \<noteq> None then ((0, err), b')
         else ((Time_Add IoDateBase (int64 (int64 (uint d * Hour) * 24)), None), b'))"

definition WriteDate ::
  "(float64 \<Rightarrow> uint16) \<Rightarrow> Time \<Rightarrow> Buffer \<Rightarrow> Time \<Rightarrow> error option \<times> Buffer" where
  "WriteDate oor IoDateBase b t =
     WriteUint16 b
       (uint16_of_float64 oor (float64_div (Duration_Hours (Time_Sub t IoDateBase)) 24))"

text \<open>
  \<open>ReadTime\<close> and \<open>WriteTime\<close> go through \<open>GobDecode\<close> and \<open>GobEncode\<close> of
  \<open>time.Time\<close>, their first parameter here. \<open>GobDecode\<close> has a pointer receiver: it
  returns its error and the receiver as it leaves it. \<open>ReadTime\<close> calls it as a
  statement, which drops the error it returns, and returns the \<open>err\<close> of
  \<open>ReadByteArray\<close>.
\<close>

definition ReadTime ::
  "(byte list \<Rightarrow> Time \<Rightarrow> error option \<times> Time) \<Rightarrow> Buffer \<Rightarrow> (Time \<times> error option) \<times> Buffer" where
  "ReadTime GobDecode b =
     (let t = 0;
          ((d, err), b') = ReadByteArray b;
          t' = (if err = None then snd (GobDecode (elems d) t) else t)
      in ((t', err), b'))"

definition WriteTime ::
  "(Time \<Rightarrow> byte list option \<times> error option) \<Rightarrow> Buffer \<Rightarrow> Time \<Rightarrow> error option \<times> Buffer" where
  "WriteTime GobEncode b t =
     (let (d, err) = GobEncode t
      in if err \<noteq> None then (err, b)
         else WriteByteArray b (elems d))"

text \<open>
  \<open>ReadMarshaller\<close> hands the bytes to \<open>m.UnmarshalBinary\<close> and returns its error;
  the result holds the error and \<open>m\<close> as the call leaves it.
\<close>

definition ReadMarshaller ::
  "(byte list \<Rightarrow> 'm \<Rightarrow> error option \<times> 'm) \<Rightarrow> Buffer \<Rightarrow> 'm \<Rightarrow> (error option \<times> 'm) \<times> Buffer" where
  "ReadMarshaller UnmarshalBinary b m =
     (let ((v, err), b') = ReadByteArray b
      in if err \<noteq> None then ((err, m), b')
         else (UnmarshalBinary (elems v) m, b'))"

definition WriteMarshaller ::
  "('m \<Rightarrow> byte list option \<times> error option) \<Rightarrow> Buffer \<Rightarrow> 'm \<Rightarrow> error option \<times> Buffer" where
  "WriteMarshaller MarshalBinary b m =
     (let (v, err) = MarshalBinary m
      in if err \<noteq> None then (err, b)
         else WriteByteArray b (elems v))"

text \<open>
  Go's \<open>time.Time.GobDecode\<close>, which is \<open>UnmarshalBinary\<close>: it rejects empty data, a
  version byte other than 1 and 2 and a length other than 15 (16 for version 2), and
  leaves the receiver as it was. Otherwise it reads the big-endian \<open>int64\<close> seconds
  since the zero time and the \<open>int32\<close> nanoseconds that follow the version byte, and
  stores \<open>uint64(nsec)\<close> in the word \<open>wall\<close> and the seconds in \<open>ext\<close>. The time reads
  its nanoseconds through the mask of the low 30 bits of \<open>wall\<close>. When bit 63 of
  \<open>wall\<close> is set (a negative \<open>nsec\<close>, sign-extended), setting the location takes the
  seconds from bits 30 to 62 of \<open>wall\<close> instead, counted from the year 1885
  (\<open>wallToInternal\<close>). The zone offset in the last bytes does not change the instant.
\<close>

definition wallToInternal :: int where
  "wallToInternal = (1884 * 365 + 1884 div 4 - 1884 div 100 + 1884 div 400) * 86400"

definition Time_GobDecode :: "byte list \<Rightarrow> Time \<Rightarrow> error option \<times> Time" where
  "Time_GobDecode data t =
     (if length data = 0
      then (Some (PlatformError ''Time.UnmarshalBinary: no data''), t)
      else if data ! 0 \<noteq> 1 \<and> data ! 0 \<noteq> 2
      then (Some (PlatformError ''Time.UnmarshalBinary: unsupported version''), t)
      else if length data \<noteq> (if data ! 0 = 2 then 16 else 15)
      then (Some (PlatformError ''Time.UnmarshalBinary: invalid length''), t)
      else (let sec = sint (word_rcat (take 8 (drop 1 data)) :: 64 word);
                nsec = (word_rcat (take 4 (drop 9 data)) :: 32 word);
                wall = (scast nsec :: 64 word);
                ext = (if bit wall 63
                       then wallToInternal + uint (drop_bit 31 (push_bit 1 wall))
                       else sec)
            in (None, ext * 1000000000 + uint (take_bit 30 wall))))"

text \<open>
  The epoch of the examples, where a statement needs a number: 1 January 2020,
  00:00 UTC, 63713433600 seconds after the zero time. Nothing depends on the choice.
\<close>

definition example_epoch :: Time where
  "example_epoch = 63713433600 * 1000000000"

section \<open>The wire format\<close>

text \<open>
  The byte sequences the writers produce: the little-endian bytes of a \<open>uint16\<close>
  and of a \<open>uint32\<close>, strings each followed by a zero byte, and blobs each after
  its length.
\<close>

definition le16 :: "uint16 \<Rightarrow> byte list" where
  "le16 i = [ucast i, ucast (drop_bit 8 i)]"

definition le32 :: "uint32 \<Rightarrow> byte list" where
  "le32 i = [ucast i, ucast (drop_bit 8 i), ucast (drop_bit 16 i), ucast (drop_bit 24 i)]"

definition wire_strings :: "gostring list \<Rightarrow> byte list" where
  "wire_strings ss = concat (map (\<lambda>s. s @ [0]) ss)"

definition wire_blobs :: "byte list list \<Rightarrow> byte list" where
  "wire_blobs xs = concat (map (\<lambda>x. le32 (word_of_nat (length x)) @ x) xs)"

section \<open>Facts about the buffer and the little-endian layout\<close>

lemma make_bytes_2: "make_bytes 2 = [0, 0]"
  by (simp add: make_bytes_def numeral_eq_Suc)

lemma make_bytes_4: "make_bytes 4 = [0, 0, 0, 0]"
  by (simp add: make_bytes_def numeral_eq_Suc)

lemma PutUint16_bytes:
  "LittleEndian_PutUint16 (make_bytes 2) v = [ucast v, ucast (drop_bit 8 v)]"
  by (simp add: LittleEndian_PutUint16_def make_bytes_2)

lemma PutUint32_bytes:
  "LittleEndian_PutUint32 (make_bytes 4) v =
     [ucast v, ucast (drop_bit 8 v), ucast (drop_bit 16 v), ucast (drop_bit 24 v)]"
  by (simp add: LittleEndian_PutUint32_def make_bytes_4)

lemma Uint16_PutUint16:
  "LittleEndian_Uint16 [ucast v, ucast (drop_bit 8 v)] = (v :: uint16)"
  unfolding LittleEndian_Uint16_def
  apply (rule bit_word_eqI)
  subgoal for n
    by (cases "n < 8") (auto simp add: bit_simps)
  done

lemma Uint32_PutUint32:
  "LittleEndian_Uint32
     [ucast v, ucast (drop_bit 8 v), ucast (drop_bit 16 v), ucast (drop_bit 24 v)] =
   (v :: uint32)"
  unfolding LittleEndian_Uint32_def
  apply (rule bit_word_eqI)
  subgoal for n
    by (cases "n < 8"; cases "n < 16"; cases "n < 24") (auto simp add: bit_simps)
  done

lemma Next_enough:
  assumes "drop (off b) (buf b) = xs @ rest" and "length xs = n"
  shows "Buffer_Next b n = (xs, b\<lparr>off := off b + n\<rparr>)"
proof -
  have "length (drop (off b) (buf b)) = length xs + length rest"
    by (simp add: assms(1))
  then have "n \<le> length (buf b) - off b"
    using assms(2) by simp
  then show ?thesis
    using assms by (simp add: Buffer_Next_def Buffer_Len_def)
qed

lemma WriteByte_appends: "WriteByte b i = (None, b\<lparr>buf := buf b @ [i]\<rparr>)"
  by (simp add: WriteByte_def Buffer_WriteByte_def)

lemma WriteBool_appends:
  "WriteBool b v = (None, b\<lparr>buf := buf b @ [if v then 1 else 0]\<rparr>)"
  by (simp add: WriteBool_def Buffer_WriteByte_def)

lemma WriteUint16_appends:
  "WriteUint16 b i = (None, b\<lparr>buf := buf b @ [ucast i, ucast (drop_bit 8 i)]\<rparr>)"
  by (simp add: WriteUint16_def PutUint16_bytes Buffer_Write_def)

lemma WriteUint32_appends:
  "WriteUint32 b i =
     (None, b\<lparr>buf := buf b @
        [ucast i, ucast (drop_bit 8 i), ucast (drop_bit 16 i), ucast (drop_bit 24 i)]\<rparr>)"
  by (simp add: WriteUint32_def PutUint32_bytes Buffer_Write_def)

lemma ReadByte_reads:
  "drop (off b) (buf b) = x # rest \<Longrightarrow>
   ReadByte b = ((x, None), b\<lparr>off := off b + 1\<rparr>)"
  using Next_enough [of b "[x]" rest 1] by (simp add: ReadByte_def)

lemma ReadBool_reads:
  "drop (off b) (buf b) = x # rest \<Longrightarrow>
   ReadBool b = ((x \<noteq> 0, None), b\<lparr>off := off b + 1\<rparr>)"
  using Next_enough [of b "[x]" rest 1] by (simp add: ReadBool_def)

lemma ReadUint16_reads:
  "drop (off b) (buf b) = [ucast v, ucast (drop_bit 8 v)] @ rest \<Longrightarrow>
   ReadUint16 b = ((v, None), b\<lparr>off := off b + 2\<rparr>)"
  using Next_enough [of b "[ucast v, ucast (drop_bit 8 v)]" rest 2]
  by (simp add: ReadUint16_def Uint16_PutUint16)

lemma ReadUint32_reads:
  "drop (off b) (buf b) =
     [ucast v, ucast (drop_bit 8 v), ucast (drop_bit 16 v), ucast (drop_bit 24 v)] @ rest \<Longrightarrow>
   ReadUint32 b = ((v, None), b\<lparr>off := off b + 4\<rparr>)"
  using Next_enough
    [of b "[ucast v, ucast (drop_bit 8 v), ucast (drop_bit 16 v), ucast (drop_bit 24 v)]" rest 4]
  by (simp add: ReadUint32_def Uint32_PutUint32)

lemma IndexByte_absent: "c \<notin> set xs \<Longrightarrow> IndexByte xs c = - 1"
  by (induction xs) (auto simp add: Let_def)

lemma IndexByte_first:
  "c \<notin> set xs \<Longrightarrow> IndexByte (xs @ c # rest) c = int (length xs)"
  by (induction xs) (auto simp add: Let_def)

lemma WriteString_appends: "WriteString b s = (None, b\<lparr>buf := buf b @ s @ [0]\<rparr>)"
  by (simp add: WriteString_def Buffer_WriteString_def Buffer_WriteByte_def)

lemma ReadString_reads:
  assumes "drop (off b) (buf b) = s @ 0 # rest" and "0 \<notin> set s"
  shows "ReadString b = ((s, None), b\<lparr>off := off b + length s + 1\<rparr>)"
  using assms IndexByte_first [of 0 s rest]
  by (simp add: ReadString_def Buffer_ReadBytes_def Let_def)

lemma ReadString_no_terminator:
  assumes "0 \<notin> set (drop (off b) (buf b))"
  shows "ReadString b = (([], Some EOF), b\<lparr>off := length (buf b)\<rparr>)"
  using assms IndexByte_absent [of 0 "drop (off b) (buf b)"]
  by (simp add: ReadString_def Buffer_ReadBytes_def Let_def)

lemma WriteByteArrayNoLength_appends:
  "WriteByteArrayNoLength b v = (None, b\<lparr>buf := buf b @ v\<rparr>)"
  by (simp add: WriteByteArrayNoLength_def Buffer_Write_def)

lemma WriteByteArray_appends:
  "WriteByteArray b v = (None, b\<lparr>buf := buf b @ le32 (word_of_nat (length v)) @ v\<rparr>)"
  by (simp add: WriteByteArray_def WriteUint32_appends WriteByteArrayNoLength_appends le32_def)

lemma ReadByteArray_reads:
  assumes "drop (off b) (buf b) = le32 (word_of_nat (length v)) @ v @ rest"
    and "length v < 2 ^ 32"
  shows "ReadByteArray b = ((Some v, None), b\<lparr>off := off b + 4 + length v\<rparr>)"
proof -
  have u: "unat (word_of_nat (length v) :: uint32) = length v"
    using assms(2) by (simp add: unat_of_nat)
  have r: "ReadUint32 b = ((word_of_nat (length v), None), b\<lparr>off := off b + 4\<rparr>)"
    using assms(1) by (intro ReadUint32_reads [where rest = "v @ rest"]) (simp add: le32_def)
  have "drop (off b + 4) (buf b) = drop 4 (drop (off b) (buf b))"
    by (simp add: add.commute)
  then have d: "drop (off (b\<lparr>off := off b + 4\<rparr>)) (buf (b\<lparr>off := off b + 4\<rparr>)) = v @ rest"
    by (simp add: assms(1) le32_def)
  have "buf b \<noteq> []"
    using assms(1) by (auto simp add: le32_def)
  then show ?thesis
    using Next_enough [OF d refl]
    by (simp add: ReadByteArray_def Buffer_Next_slice_def r u)
qed


declare ReadStrings_loop.simps [simp del]

declare ReadByteArrayArray_loop.simps [simp del]

lemma WriteStrings_range_appends:
  "WriteStrings_range b v = (None, b\<lparr>buf := buf b @ wire_strings v\<rparr>)"
  by (induction v arbitrary: b) (simp_all add: wire_strings_def WriteString_appends)

lemma WriteByteArrayArray_range_appends:
  "WriteByteArrayArray_range b v = (None, b\<lparr>buf := buf b @ wire_blobs v\<rparr>)"
  by (induction v arbitrary: b) (simp_all add: wire_blobs_def WriteByteArray_appends)

lemma drop_past:
  assumes "drop k xs = ys @ zs" and "n = length ys"
  shows "drop (k + n) xs = zs"
proof -
  have "drop (k + n) xs = drop n (drop k xs)"
    by (simp add: add.commute)
  then show ?thesis
    by (simp add: assms)
qed

lemma ReadStrings_loop_reads:
  assumes "drop (off b) (buf b) = wire_strings ss @ rest"
    and "\<forall>s\<in>set ss. 0 \<notin> set s"
    and "i + length ss = c"
    and "length v = c"
  shows "ReadStrings_loop b c i v =
           ((Some (take i v @ ss), None), b\<lparr>off := off b + length (wire_strings ss)\<rparr>)"
  using assms
proof (induction ss arbitrary: b i v)
  case Nil
  then show ?case
    by (subst ReadStrings_loop.simps) (simp add: wire_strings_def)
next
  case (Cons s ss)
  let ?b1 = "b\<lparr>off := off b + length s + 1\<rparr>"
  have un: "drop (off b) (buf b) = s @ 0 # (wire_strings ss @ rest)"
    using Cons.prems(1) by (simp add: wire_strings_def)
  have z: "0 \<notin> set s"
    using Cons.prems(2) by simp
  have rd: "ReadString b = ((s, None), ?b1)"
    using un z by (rule ReadString_reads)
  have "drop (off b + (length s + 1)) (buf b) = wire_strings ss @ rest"
    using un by (intro drop_past [where ys = "s @ [0]"]) simp_all
  then have d1: "drop (off ?b1) (buf ?b1) = wire_strings ss @ rest"
    by (simp add: add.assoc)
  have lt: "i < c"
    using Cons.prems(3) by simp
  have ih: "ReadStrings_loop ?b1 c (i + 1) (v[i := s]) =
      ((Some (take (i + 1) (v[i := s]) @ ss), None),
       ?b1\<lparr>off := off ?b1 + length (wire_strings ss)\<rparr>)"
    using Cons.prems by (intro Cons.IH [OF d1]) simp_all
  have tk: "take (i + 1) (v[i := s]) = take i v @ [s]"
    using lt Cons.prems(4) by (simp add: take_Suc_conv_app_nth)
  have step: "ReadStrings_loop b c i v = ReadStrings_loop ?b1 c (i + 1) (v[i := s])"
    using lt by (subst ReadStrings_loop.simps) (simp add: rd)
  show ?case
    unfolding step ih tk by (simp add: wire_strings_def)
qed

lemma ReadByteArrayArray_loop_reads:
  assumes "drop (off b) (buf b) = wire_blobs xs @ rest"
    and "\<forall>x\<in>set xs. length x < 2 ^ 32"
    and "i + length xs = c"
    and "length v = c"
  shows "ReadByteArrayArray_loop b c i v =
           ((Some (take i v @ xs), None), b\<lparr>off := off b + length (wire_blobs xs)\<rparr>)"
  using assms
proof (induction xs arbitrary: b i v)
  case Nil
  then show ?case
    by (subst ReadByteArrayArray_loop.simps) (simp add: wire_blobs_def)
next
  case (Cons x xs)
  let ?b1 = "b\<lparr>off := off b + 4 + length x\<rparr>"
  have un: "drop (off b) (buf b) = le32 (word_of_nat (length x)) @ x @ (wire_blobs xs @ rest)"
    using Cons.prems(1) by (simp add: wire_blobs_def)
  have z: "length x < 2 ^ 32"
    using Cons.prems(2) by simp
  have rd: "ReadByteArray b = ((Some x, None), ?b1)"
    using un z by (rule ReadByteArray_reads)
  have "drop (off b + (4 + length x)) (buf b) = wire_blobs xs @ rest"
    using un by (intro drop_past [where ys = "le32 (word_of_nat (length x)) @ x"]) (simp_all add: le32_def)
  then have d1: "drop (off ?b1) (buf ?b1) = wire_blobs xs @ rest"
    by (simp add: add.assoc)
  have lt: "i < c"
    using Cons.prems(3) by simp
  have ih: "ReadByteArrayArray_loop ?b1 c (i + 1) (v[i := x]) =
      ((Some (take (i + 1) (v[i := x]) @ xs), None),
       ?b1\<lparr>off := off ?b1 + length (wire_blobs xs)\<rparr>)"
    using Cons.prems by (intro Cons.IH [OF d1]) simp_all
  have tk: "take (i + 1) (v[i := x]) = take i v @ [x]"
    using lt Cons.prems(4) by (simp add: take_Suc_conv_app_nth)
  have step: "ReadByteArrayArray_loop b c i v =
      ReadByteArrayArray_loop ?b1 c (i + 1) (v[i := x])"
    using lt by (subst ReadByteArrayArray_loop.simps) (simp add: rd)
  show ?case
    unfolding step ih tk by (simp add: wire_blobs_def le32_def)
qed

lemma ReadStrings_loop_nil_on_error:
  "ReadStrings_loop b c i v = ((r, err), b') \<Longrightarrow> err \<noteq> None \<Longrightarrow> r = None"
proof (induction b c i v rule: ReadStrings_loop.induct)
  case (1 b c i v)
  show ?case
  proof (cases "i < c")
    case False
    with "1.prems" show ?thesis
      by (subst (asm) ReadStrings_loop.simps) simp
  next
    case True
    obtain s e b1 where rs: "ReadString b = ((s, e), b1)"
      by (metis surj_pair)
    show ?thesis
    proof (cases e)
      case None
      with True rs "1.prems" have "ReadStrings_loop b1 c (i + 1) (v[i := s]) = ((r, err), b')"
        by (subst (asm) ReadStrings_loop.simps) simp
      moreover have "\<not> e \<noteq> None"
        using None by simp
      ultimately show ?thesis
        using "1.IH" [OF True rs [symmetric] refl] "1.prems"(2) by blast
    next
      case (Some a)
      with True rs "1.prems" show ?thesis
        by (subst (asm) ReadStrings_loop.simps) simp
    qed
  qed
qed

lemma Next_truncated:
  "Buffer_Len b < n \<Longrightarrow>
   Buffer_Next b n = (drop (off b) (buf b), b\<lparr>off := off b + Buffer_Len b\<rparr>) \<and>
   length (drop (off b) (buf b)) = Buffer_Len b"
  by (simp add: Buffer_Next_def Buffer_Len_def)

lemma fixed_width_reads_truncated:
  "Buffer_Len b < 4 \<Longrightarrow>
     ReadUint32 b = ((0, Some (IncorrectBytes (Buffer_Len b) ''Uint32'')),
                     b\<lparr>off := off b + Buffer_Len b\<rparr>)"
  "Buffer_Len b < 2 \<Longrightarrow>
     ReadUint16 b = ((0, Some (IncorrectBytes (Buffer_Len b) ''Uint16'')),
                     b\<lparr>off := off b + Buffer_Len b\<rparr>)"
  "Buffer_Len b < 1 \<Longrightarrow>
     ReadByte b = ((0, Some (IncorrectBytes (Buffer_Len b) ''byte'')),
                   b\<lparr>off := off b + Buffer_Len b\<rparr>)"
  "Buffer_Len b < 1 \<Longrightarrow>
     ReadBool b = ((False, Some (IncorrectBytes (Buffer_Len b) ''bool'')),
                   b\<lparr>off := off b + Buffer_Len b\<rparr>)"
  "Buffer_Len b < l \<Longrightarrow>
     ReadByteArrayNoLength b l = ((None, Some (ReadButExpected (Buffer_Len b) l)),
                                  b\<lparr>off := off b + Buffer_Len b\<rparr>)"
  using Next_truncated [of b 4] Next_truncated [of b 2] Next_truncated [of b 1]
    Next_truncated [of b l]
  by (auto simp add: ReadUint32_def ReadUint16_def ReadByte_def ReadBool_def
      ReadByteArrayNoLength_def Buffer_Next_slice_def Buffer_Len_def)

lemma ReadByteArrayArray_loop_nil_on_error:
  "ReadByteArrayArray_loop b c i v = ((r, err), b') \<Longrightarrow> err \<noteq> None \<Longrightarrow> r = None"
proof (induction b c i v rule: ReadByteArrayArray_loop.induct)
  case (1 b c i v)
  show ?case
  proof (cases "i < c")
    case False
    with "1.prems" show ?thesis
      by (subst (asm) ReadByteArrayArray_loop.simps) simp
  next
    case True
    obtain s e b1 where rs: "ReadByteArray b = ((s, e), b1)"
      by (metis surj_pair)
    show ?thesis
    proof (cases e)
      case None
      with True rs "1.prems" have "ReadByteArrayArray_loop b1 c (i + 1) (v[i := elems s]) = ((r, err), b')"
        by (subst (asm) ReadByteArrayArray_loop.simps) simp
      moreover have "\<not> e \<noteq> None"
        using None by simp
      ultimately show ?thesis
        using "1.IH" [OF True rs [symmetric] refl] "1.prems"(2) by blast
    next
      case (Some a)
      with True rs "1.prems" show ?thesis
        by (subst (asm) ReadByteArrayArray_loop.simps) simp
    qed
  qed
qed

lemma ReadStrings_nil_on_error:
  assumes "snd (fst (ReadStrings b)) \<noteq> None"
  shows "fst (fst (ReadStrings b)) = None"
proof -
  obtain c e b1 where ru: "ReadUint16 b = ((c, e), b1)"
    by (metis surj_pair)
  show ?thesis
  proof (cases e)
    case (Some a)
    then show ?thesis
      by (simp add: ReadStrings_def ru)
  next
    case None
    obtain r err b' where lp:
      "ReadStrings_loop b1 (unat c) 0 (replicate (unat c) []) = ((r, err), b')"
      by (metis surj_pair)
    have rs: "ReadStrings b = ((r, err), b')"
      using None by (simp add: ReadStrings_def ru lp)
    with assms have "err \<noteq> None"
      by simp
    with lp have "r = None"
      by (rule ReadStrings_loop_nil_on_error)
    then show ?thesis
      by (simp add: rs)
  qed
qed

lemma ReadByteArrayArray_nil_on_error:
  assumes "snd (fst (ReadByteArrayArray b)) \<noteq> None"
  shows "fst (fst (ReadByteArrayArray b)) = None"
proof -
  obtain c e b1 where ru: "ReadUint16 b = ((c, e), b1)"
    by (metis surj_pair)
  show ?thesis
  proof (cases e)
    case (Some a)
    then show ?thesis
      by (simp add: ReadByteArrayArray_def ru)
  next
    case None
    obtain r err b' where lp:
      "ReadByteArrayArray_loop b1 (unat c) 0 (replicate (unat c) []) = ((r, err), b')"
      by (metis surj_pair)
    have rs: "ReadByteArrayArray b = ((r, err), b')"
      using None by (simp add: ReadByteArrayArray_def ru lp)
    with assms have "err \<noteq> None"
      by simp
    with lp have "r = None"
      by (rule ReadByteArrayArray_loop_nil_on_error)
    then show ?thesis
      by (simp add: rs)
  qed
qed

lemma ReadByteArray_error_is_ReadUint32_error:
  "snd (fst (ReadByteArray b)) = snd (fst (ReadUint32 b))"
  by (simp add: ReadByteArray_def split_beta)

lemma ReadTime_error_is_ReadByteArray_error:
  "snd (fst (ReadTime g b)) = snd (fst (ReadByteArray b))"
  by (simp add: ReadTime_def split_beta Let_def)

lemma ReadMarshaller_returns_decode_error:
  "snd (fst (ReadByteArray b)) = None \<Longrightarrow>
   fst (fst (ReadMarshaller u b m)) = fst (u (elems (fst (fst (ReadByteArray b)))) m)"
  by (simp add: ReadMarshaller_def split_beta)

lemma WriteStrings_appends:
  "WriteStrings b v =
     (None, b\<lparr>buf := buf b @ le16 (word_of_nat (length v)) @ wire_strings v\<rparr>)"
  by (simp add: WriteStrings_def WriteUint16_appends WriteStrings_range_appends le16_def)

lemma WriteByteArrayArray_appends:
  "WriteByteArrayArray b v =
     (None, b\<lparr>buf := buf b @ le16 (word_of_nat (length v)) @ wire_blobs v\<rparr>)"
  by (simp add: WriteByteArrayArray_def WriteUint16_appends
      WriteByteArrayArray_range_appends le16_def)

lemma ReadStrings_reads:
  assumes "drop (off b) (buf b) = le16 c @ wire_strings ss @ rest"
    and "\<forall>s\<in>set ss. 0 \<notin> set s"
    and "unat c = length ss"
  shows "ReadStrings b =
     ((Some ss, None), b\<lparr>off := off b + 2 + length (wire_strings ss)\<rparr>)"
proof -
  let ?b1 = "b\<lparr>off := off b + 2\<rparr>"
  have r: "ReadUint16 b = ((c, None), ?b1)"
    using assms(1) by (intro ReadUint16_reads [where rest = "wire_strings ss @ rest"])
      (simp add: le16_def)
  have "drop (off b + 2) (buf b) = wire_strings ss @ rest"
    using assms(1) by (intro drop_past [where ys = "le16 c"]) (simp_all add: le16_def)
  then have d: "drop (off ?b1) (buf ?b1) = wire_strings ss @ rest"
    by simp
  have "ReadStrings_loop ?b1 (unat c) 0 (replicate (unat c) []) =
      ((Some (take 0 (replicate (unat c) []) @ ss), None),
       ?b1\<lparr>off := off ?b1 + length (wire_strings ss)\<rparr>)"
    using d assms(2) by (rule ReadStrings_loop_reads) (simp_all add: assms(3))
  then show ?thesis
    by (simp add: ReadStrings_def r)
qed

lemma ReadByteArrayArray_reads:
  assumes "drop (off b) (buf b) = le16 c @ wire_blobs xs @ rest"
    and "\<forall>x\<in>set xs. length x < 2 ^ 32"
    and "unat c = length xs"
  shows "ReadByteArrayArray b =
     ((Some xs, None), b\<lparr>off := off b + 2 + length (wire_blobs xs)\<rparr>)"
proof -
  let ?b1 = "b\<lparr>off := off b + 2\<rparr>"
  have r: "ReadUint16 b = ((c, None), ?b1)"
    using assms(1) by (intro ReadUint16_reads [where rest = "wire_blobs xs @ rest"])
      (simp add: le16_def)
  have "drop (off b + 2) (buf b) = wire_blobs xs @ rest"
    using assms(1) by (intro drop_past [where ys = "le16 c"]) (simp_all add: le16_def)
  then have d: "drop (off ?b1) (buf ?b1) = wire_blobs xs @ rest"
    by simp
  have "ReadByteArrayArray_loop ?b1 (unat c) 0 (replicate (unat c) []) =
      ((Some (take 0 (replicate (unat c) []) @ xs), None),
       ?b1\<lparr>off := off ?b1 + length (wire_blobs xs)\<rparr>)"
    using d assms(2) by (rule ReadByteArrayArray_loop_reads) (simp_all add: assms(3))
  then show ?thesis
    by (simp add: ReadByteArrayArray_def r)
qed

lemma unat_count16: "n < 65536 \<Longrightarrow> unat (word_of_nat n :: uint16) = n"
  by (simp add: unat_of_nat)

section \<open>Facts about float64 rounding and the minute count\<close>












lemma Minute_pos: "0 < Minute"
  by (simp add: Minute_def)

lemma minutes_le_max:
  assumes "0 \<le> d" and "d \<le> maxDuration"
  shows "0 \<le> d div Minute \<and> d div Minute \<le> 153722867 \<and>
         0 \<le> d mod Minute \<and> d mod Minute < 60000000000"
proof -
  have "d div Minute \<le> maxDuration div Minute"
    using assms(2) Minute_pos by (intro zdiv_mono1) simp_all
  moreover have "maxDuration div Minute = 153722867"
    by (simp add: maxDuration_def Minute_def)
  moreover have "0 \<le> d div Minute"
    using assms(1) Minute_pos by (simp add: pos_imp_zdiv_nonneg_iff)
  ultimately show ?thesis
    by (simp add: Minute_def)
qed













lemma top_bit_le:
  assumes "0 \<le> m" and "m < 2 ^ (n + 1)"
  shows "top_bit m \<le> 2 ^ n"
proof (cases "m = 0")
  case True
  then show ?thesis
    by (simp add: top_bit_def)
next
  case False
  then have "0 < m"
    using assms(1) by simp
  then have "2 ^ nat (bitlen m - 1) \<le> m"
    using bitlen_bounds [of m] by simp
  then have "(2 :: int) ^ nat (bitlen m - 1) < 2 ^ (n + 1)"
    using assms(2) by linarith
  then have "nat (bitlen m - 1) < n + 1"
    using power_strict_increasing_iff [of "2 :: int" "nat (bitlen m - 1)" "n + 1"] by simp
  then have "(2 :: int) ^ nat (bitlen m - 1) \<le> 2 ^ n"
    by (intro power_increasing) simp_all
  then show ?thesis
    by (simp add: top_bit_def)
qed

lemma guard_last_microsecond:
  assumes "0 \<le> d" and "d \<le> maxDuration" and "d mod Minute \<le> 59999999000"
  shows "60000000000 * (top_bit (d div Minute) + 1) \<le> (60000000000 - d mod Minute) * 2 ^ 53"
proof -
  have "top_bit (d div Minute) \<le> 2 ^ 27"
    using minutes_le_max [OF assms(1,2)] by (intro top_bit_le) simp_all
  then have "60000000000 * (top_bit (d div Minute) + 1) \<le> 60000000000 * (2 ^ 27 + 1)"
    by simp
  also have "\<dots> \<le> 1000 * 2 ^ 53"
    by simp
  also have "\<dots> \<le> (60000000000 - d mod Minute) * 2 ^ 53"
    using assms(3) by simp
  finally show ?thesis .
qed

lemma guard_whole_minute:
  assumes "0 \<le> d" and "d \<le> maxDuration" and "d mod Minute = 0"
  shows "60000000000 * (top_bit (d div Minute) + 1) \<le> (60000000000 - d mod Minute) * 2 ^ 53"
  using guard_last_microsecond [OF assms(1,2)] assms(3) by simp

lemma guard_first_year:
  assumes "0 \<le> d" and "d div Minute < 2 ^ 19" and "d mod Minute \<le> 59999999998"
  shows "60000000000 * (top_bit (d div Minute) + 1) \<le> (60000000000 - d mod Minute) * 2 ^ 53"
proof -
  have m: "0 \<le> d div Minute"
    using assms(1) Minute_pos by (simp add: pos_imp_zdiv_nonneg_iff)
  have "top_bit (d div Minute) \<le> 2 ^ 18"
    using m assms(2) by (intro top_bit_le) simp_all
  then have "60000000000 * (top_bit (d div Minute) + 1) \<le> 60000000000 * (2 ^ 18 + 1)"
    by simp
  also have "\<dots> \<le> 2 * 2 ^ 53"
    by simp
  also have "\<dots> \<le> (60000000000 - d mod Minute) * 2 ^ 53"
    using assms(3) by simp
  finally show ?thesis .
qed



section \<open>Booleans (C8)\<close>

text \<open>
  C8. \<open>WriteBool\<close> returns no error and appends exactly one byte to the buffer, 0 for
  false and 1 for true; \<open>ReadBool\<close> on a buffer of one byte returns false when the
  byte is 0 and true for every other byte, without error, and consumes the byte.
\<close>

theorem WriteBool_ReadBool_byte:
  "WriteBool b v = (None, b\<lparr>buf := buf b @ [if v then 1 else 0]\<rparr>) \<and>
   ReadBool (NewBuffer [x]) = ((x \<noteq> 0, None), \<lparr>buf = [x], off = 1\<rparr>)"
proof -
  have "drop (off (NewBuffer [x])) (buf (NewBuffer [x])) = x # []"
    by (simp add: NewBuffer_def)
  then have "ReadBool (NewBuffer [x]) =
      ((x \<noteq> 0, None), (NewBuffer [x])\<lparr>off := off (NewBuffer [x]) + 1\<rparr>)"
    by (rule ReadBool_reads)
  then show ?thesis
    by (simp add: WriteBool_appends NewBuffer_def)
qed

theorem WriteBool_ReadBool_byte_witness:
  "WriteBool (NewBuffer [7]) True = (None, \<lparr>buf = [7, 1], off = 0\<rparr>) \<and>
   WriteBool (NewBuffer [7]) False = (None, \<lparr>buf = [7, 0], off = 0\<rparr>) \<and>
   ReadBool (NewBuffer [0]) = ((False, None), \<lparr>buf = [0], off = 1\<rparr>) \<and>
   ReadBool (NewBuffer [1]) = ((True, None), \<lparr>buf = [1], off = 1\<rparr>) \<and>
   ReadBool (NewBuffer [255]) = ((True, None), \<lparr>buf = [255], off = 1\<rparr>)"
  using WriteBool_ReadBool_byte [of "NewBuffer [7]" True 0]
        WriteBool_ReadBool_byte [of "NewBuffer [7]" False 1]
        WriteBool_ReadBool_byte [of "NewBuffer [7]" False 255]
  by (simp add: NewBuffer_def)

section \<open>Scalar round trip (C3)\<close>

text \<open>
  C3. For every value of type \<open>uint16\<close>, \<open>uint32\<close>, byte, bool and \<open>float32\<close>,
  writing it to an empty buffer succeeds and reading the buffer back returns exactly
  that value with no error. For \<open>float32\<close> the 32-bit pattern is what is written and
  read, so every pattern (negative zero, NaN payloads) comes back unchanged.
\<close>

theorem scalar_round_trip:
  "fst (ReadUint16 (snd (WriteUint16 (NewBuffer []) u))) = (u, None) \<and>
   fst (ReadUint32 (snd (WriteUint32 (NewBuffer []) w))) = (w, None) \<and>
   fst (ReadByte (snd (WriteByte (NewBuffer []) x))) = (x, None) \<and>
   fst (ReadBool (snd (WriteBool (NewBuffer []) v))) = (v, None) \<and>
   fst (ReadFloat32 (snd (WriteFloat32 (NewBuffer []) f))) = (f, None) \<and>
   fst (WriteUint16 (NewBuffer []) u) = None \<and>
   fst (WriteUint32 (NewBuffer []) w) = None \<and>
   fst (WriteByte (NewBuffer []) x) = None \<and>
   fst (WriteBool (NewBuffer []) v) = None \<and>
   fst (WriteFloat32 (NewBuffer []) f) = None"
proof -
  have r32: "fst (ReadUint32 (snd (WriteUint32 (NewBuffer []) i))) = (i, None)" for i
    using ReadUint32_reads [of "snd (WriteUint32 (NewBuffer []) i)" i "[]"]
    by (simp add: WriteUint32_appends NewBuffer_def)
  have r16: "fst (ReadUint16 (snd (WriteUint16 (NewBuffer []) u))) = (u, None)"
    using ReadUint16_reads [of "snd (WriteUint16 (NewBuffer []) u)" u "[]"]
    by (simp add: WriteUint16_appends NewBuffer_def)
  have rb: "fst (ReadByte (snd (WriteByte (NewBuffer []) x))) = (x, None)"
    using ReadByte_reads [of "snd (WriteByte (NewBuffer []) x)" x "[]"]
    by (simp add: WriteByte_appends NewBuffer_def)
  have rv: "fst (ReadBool (snd (WriteBool (NewBuffer []) v))) = (v, None)"
    using ReadBool_reads [of "snd (WriteBool (NewBuffer []) v)" "if v then 1 else 0" "[]"]
    by (simp add: WriteBool_appends NewBuffer_def)
  have rf: "fst (ReadFloat32 (snd (WriteFloat32 (NewBuffer []) f))) = (f, None)"
    using r32 [of "Float32bits f"]
    by (simp add: ReadFloat32_def WriteFloat32_def split_beta)
  have w: "fst (WriteUint16 (NewBuffer []) u) = None"
    "fst (WriteUint32 (NewBuffer []) w) = None"
    "fst (WriteByte (NewBuffer []) x) = None"
    "fst (WriteBool (NewBuffer []) v) = None"
    "fst (WriteFloat32 (NewBuffer []) f) = None"
    by (simp_all add: WriteUint16_appends WriteUint32_appends
        WriteByte_appends WriteBool_appends WriteFloat32_def)
  show ?thesis
    using r32 [of w] r16 rb rv rf w by blast
qed

theorem scalar_round_trip_witness:
  "fst (ReadUint16 (snd (WriteUint16 (NewBuffer []) 65535))) = (65535, None) \<and>
   fst (ReadUint32 (snd (WriteUint32 (NewBuffer []) 305419896))) = (305419896, None) \<and>
   fst (ReadByte (snd (WriteByte (NewBuffer []) 200))) = (200, None) \<and>
   fst (ReadBool (snd (WriteBool (NewBuffer []) True))) = (True, None) \<and>
   fst (ReadFloat32 (snd (WriteFloat32 (NewBuffer []) (Float32frombits 2147483648)))) =
     (Float32frombits 2147483648, None) \<and>
   snd (WriteUint32 (NewBuffer []) 305419896) = NewBuffer [120, 86, 52, 18]"
proof -
  have "snd (WriteUint32 (NewBuffer []) 305419896) = NewBuffer [120, 86, 52, 18]"
    by code_simp
  then show ?thesis
    using scalar_round_trip [of 65535 305419896 200 True "Float32frombits 2147483648"]
    by simp
qed

section \<open>String round trip (C5)\<close>

text \<open>
  C5. For every string \<open>s\<close> without a zero byte and every buffer \<open>b\<close> with nothing
  unread, \<open>WriteString\<close> appends the bytes of \<open>s\<close> and one zero byte, and
  \<open>ReadString\<close> then returns \<open>s\<close> with no error and leaves the read cursor past the
  terminator, at the end of the buffer. On a buffer \<open>c\<close> whose unread bytes hold no
  zero byte \<open>ReadString\<close> fails with \<open>io.EOF\<close>, a TruncatedInput error.
\<close>

theorem string_round_trip:
  "(0 \<notin> set s \<and> off b = length (buf b) \<longrightarrow>
      WriteString b s = (None, b\<lparr>buf := buf b @ s @ [0]\<rparr>) \<and>
      ReadString (snd (WriteString b s)) =
        ((s, None), \<lparr>buf = buf b @ s @ [0], off = length (buf b @ s @ [0])\<rparr>)) \<and>
   (0 \<notin> set (Buffer_Bytes c) \<longrightarrow>
      ReadString c = (([], Some EOF), c\<lparr>off := length (buf c)\<rparr>) \<and> TruncatedInput EOF)"
proof (intro conjI impI)
  assume h: "0 \<notin> set s \<and> off b = length (buf b)"
  show w: "WriteString b s = (None, b\<lparr>buf := buf b @ s @ [0]\<rparr>)"
    by (rule WriteString_appends)
  let ?b1 = "b\<lparr>buf := buf b @ s @ [0]\<rparr>"
  have "drop (off ?b1) (buf ?b1) = s @ 0 # []"
    using h by simp
  then have "ReadString ?b1 = ((s, None), ?b1\<lparr>off := off ?b1 + length s + 1\<rparr>)"
    using h by (intro ReadString_reads) simp_all
  then show "ReadString (snd (WriteString b s)) =
      ((s, None), \<lparr>buf = buf b @ s @ [0], off = length (buf b @ s @ [0])\<rparr>)"
    using h by (simp add: w)
next
  assume "0 \<notin> set (Buffer_Bytes c)"
  then show "ReadString c = (([], Some EOF), c\<lparr>off := length (buf c)\<rparr>)"
    by (simp add: Buffer_Bytes_def ReadString_no_terminator)
next
  show "TruncatedInput EOF"
    by simp
qed

theorem string_round_trip_witness:
  "ReadString (snd (WriteString (NewBuffer []) [104, 105])) =
      ((([104, 105], None)), \<lparr>buf = [104, 105, 0], off = 3\<rparr>) \<and>
   ReadString (NewBuffer [104, 105]) = (([], Some EOF), \<lparr>buf = [104, 105], off = 2\<rparr>)"
  using string_round_trip [of "[104, 105]" "NewBuffer []" "NewBuffer [104, 105]"]
  by (simp add: NewBuffer_def Buffer_Bytes_def WriteString_appends)

section \<open>Strings with an embedded zero byte (C9)\<close>

text \<open>
  C9. For every string \<open>s\<close> whose first zero byte is at index \<open>i\<close>, \<open>WriteString\<close>
  succeeds and appends all of \<open>s\<close> and a terminator; \<open>ReadString\<close> on the result
  succeeds and returns the prefix \<open>s[0:i]\<close>, and the bytes of \<open>s\<close> after index
  \<open>i\<close> (and the terminator) stay unread in the buffer.
\<close>

theorem embedded_zero_truncates:
  assumes "i < length s" and "s ! i = 0" and "0 \<notin> set (take i s)"
    and "off b = length (buf b)"
  shows "WriteString b s = (None, b\<lparr>buf := buf b @ s @ [0]\<rparr>) \<and>
         ReadString (snd (WriteString b s)) =
           ((take i s, None), \<lparr>buf = buf b @ s @ [0], off = length (buf b) + i + 1\<rparr>) \<and>
         Buffer_Bytes (snd (ReadString (snd (WriteString b s)))) = drop (i + 1) s @ [0]"
proof -
  let ?b1 = "b\<lparr>buf := buf b @ s @ [0]\<rparr>"
  have s: "s = take i s @ 0 # drop (i + 1) s"
    using assms(1,2) by (metis Suc_eq_plus1 id_take_nth_drop)
  have "drop (off ?b1) (buf ?b1) = s @ [0]"
    using assms(4) by simp
  also have "\<dots> = take i s @ 0 # (drop (i + 1) s @ [0])"
    using s by (metis append_Cons append_assoc)
  finally have "ReadString ?b1 =
      ((take i s, None), ?b1\<lparr>off := off ?b1 + length (take i s) + 1\<rparr>)"
    using assms(3) by (rule ReadString_reads)
  then have r: "ReadString ?b1 =
      ((take i s, None), \<lparr>buf = buf b @ s @ [0], off = length (buf b) + i + 1\<rparr>)"
    using assms(1,4) by (simp add: min_def)
  show ?thesis
    using assms(1) by (simp add: WriteString_appends r Buffer_Bytes_def)
qed

theorem embedded_zero_truncates_witness:
  "ReadString (snd (WriteString (NewBuffer []) [97, 0, 98])) =
      (([97], None), \<lparr>buf = [97, 0, 98, 0], off = 2\<rparr>) \<and>
   Buffer_Bytes (snd (ReadString (snd (WriteString (NewBuffer []) [97, 0, 98])))) = [98, 0]"
  using embedded_zero_truncates [of 1 "[97, 0, 98]" "NewBuffer []"]
  by (simp add: NewBuffer_def WriteString_appends Buffer_Bytes_def)

section \<open>Truncated blobs (C1)\<close>

text \<open>
  C1 asks that every read fail with a TruncatedInput error when the buffer holds fewer
  bytes than it needs, and that \<open>ReadByteArray\<close> return exactly as many bytes as the
  count it read. The fixed-width reads and \<open>ReadByteArrayNoLength\<close> do fail
  (\<open>fixed_width_reads_truncated\<close>); \<open>ReadByteArray\<close> does not: its error is
  that of \<open>ReadUint32\<close> and nothing else
  (\<open>ReadByteArray_error_is_ReadUint32_error\<close>). On the buffer
  \<open>05 00 00 00 01 02\<close> it reads the count 5, gets the 2 bytes that are left from
  \<open>Next\<close> and returns them with a \<open>nil\<close> error, where \<open>ReadByteArrayNoLength\<close> on
  the same 2 bytes and the length 5 returns its error.
\<close>

theorem ReadByteArray_short_slice:
  "ReadByteArray (NewBuffer [5, 0, 0, 0, 1, 2]) =
     ((Some [1, 2], None), \<lparr>buf = [5, 0, 0, 0, 1, 2], off = 6\<rparr>) \<and>
   ReadByteArrayNoLength (NewBuffer [1, 2]) 5 =
     ((None, Some (ReadButExpected 2 5)), \<lparr>buf = [1, 2], off = 2\<rparr>)"
  by code_simp

section \<open>Arrays after a failed read (C10)\<close>

text \<open>
  C10. Whenever \<open>ReadStrings\<close> or \<open>ReadByteArrayArray\<close> returns an error, from the
  count header or from an element, the slice it returns is \<open>nil\<close>: never the array
  with the elements read so far.
\<close>

theorem array_reads_nil_on_error:
  "(snd (fst (ReadStrings b)) \<noteq> None \<longrightarrow> fst (fst (ReadStrings b)) = None) \<and>
   (snd (fst (ReadByteArrayArray c)) \<noteq> None \<longrightarrow> fst (fst (ReadByteArrayArray c)) = None)"
  using ReadStrings_nil_on_error ReadByteArrayArray_nil_on_error by blast

theorem array_reads_nil_on_error_witness:
  "fst (ReadStrings (NewBuffer [2, 0, 97, 0, 98])) = (None, Some EOF) \<and>
   fst (ReadByteArrayArray (NewBuffer [2, 0, 1, 0, 0, 0, 7, 9, 0, 0])) =
     (None, Some (IncorrectBytes 3 ''Uint32''))"
proof -
  have s: "snd (fst (ReadStrings (NewBuffer [2, 0, 97, 0, 98]))) = Some EOF"
    by code_simp
  have a: "snd (fst (ReadByteArrayArray (NewBuffer [2, 0, 1, 0, 0, 0, 7, 9, 0, 0]))) =
      Some (IncorrectBytes 3 ''Uint32'')"
    by code_simp
  show ?thesis
    using array_reads_nil_on_error
      [of "NewBuffer [2, 0, 97, 0, 98]" "NewBuffer [2, 0, 1, 0, 0, 0, 7, 9, 0, 0]"] s a
    by (simp add: prod_eq_iff)
qed

section \<open>Array round trip (C6)\<close>

text \<open>
  C6, as stated for every sequence, fails: a string with a zero byte inside comes back
  cut at that byte, and the count header is \<open>uint16(len(v))\<close>, so a sequence of 65536
  elements is written with the count 0 and read back as the empty sequence.
\<close>

theorem array_round_trip_counterexample:
  "fst (ReadStrings (snd (WriteStrings (NewBuffer []) [[97, 0, 98]]))) = (Some [[97]], None) \<and>
   fst (ReadByteArrayArray (snd (WriteByteArrayArray (NewBuffer []) (replicate 65536 [])))) =
     (Some [], None)"
proof -
  have s: "fst (ReadStrings (snd (WriteStrings (NewBuffer []) [[97, 0, 98]]))) =
      (Some [[97]], None)"
    by code_simp
  let ?b = "NewBuffer (le16 0 @ wire_blobs [] @ wire_blobs (replicate 65536 []))"
  have z: "(65536 :: uint16) = 0"
    by simp
  have w: "snd (WriteByteArrayArray (NewBuffer []) (replicate 65536 [])) = ?b"
    by (simp add: WriteByteArrayArray_appends NewBuffer_def wire_blobs_def z)
  have "ReadByteArrayArray ?b =
      ((Some [], None), ?b\<lparr>off := off ?b + 2 + length (wire_blobs [])\<rparr>)"
    by (rule ReadByteArrayArray_reads
        [where rest = "wire_blobs (replicate 65536 [])" and c = 0])
      (simp_all add: NewBuffer_def)
  then show ?thesis
    using s by (simp add: w)
qed

text \<open>
  C6, amended. For every sequence of fewer than 65536 strings, none with a zero byte,
  and every sequence of fewer than 65536 blobs, each shorter than \<open>2\<^sup>3\<^sup>2\<close> bytes,
  writing to an empty buffer gives the \<open>uint16\<close> count and then the elements in order,
  and reading it back returns the same sequence (the same length, order and contents,
  duplicates kept) with no error. The empty sequence is written as the count 0 alone.
\<close>

theorem array_round_trip:
  assumes "length v < 2 ^ 16" and "\<forall>s\<in>set v. 0 \<notin> set s"
    and "length w < 2 ^ 16" and "\<forall>x\<in>set w. length x < 2 ^ 32"
  shows "WriteStrings (NewBuffer []) v =
           (None, NewBuffer (le16 (word_of_nat (length v)) @ wire_strings v)) \<and>
         fst (ReadStrings (snd (WriteStrings (NewBuffer []) v))) = (Some v, None) \<and>
         WriteByteArrayArray (NewBuffer []) w =
           (None, NewBuffer (le16 (word_of_nat (length w)) @ wire_blobs w)) \<and>
         fst (ReadByteArrayArray (snd (WriteByteArrayArray (NewBuffer []) w))) = (Some w, None) \<and>
         WriteStrings (NewBuffer []) [] = (None, NewBuffer [0, 0]) \<and>
         WriteByteArrayArray (NewBuffer []) [] = (None, NewBuffer [0, 0])"
proof -
  have ws: "WriteStrings (NewBuffer []) u =
      (None, NewBuffer (le16 (word_of_nat (length u)) @ wire_strings u))" for u
    by (simp add: WriteStrings_appends NewBuffer_def)
  have wb: "WriteByteArrayArray (NewBuffer []) u =
      (None, NewBuffer (le16 (word_of_nat (length u)) @ wire_blobs u))" for u
    by (simp add: WriteByteArrayArray_appends NewBuffer_def)
  have "ReadStrings (NewBuffer (le16 (word_of_nat (length v)) @ wire_strings v)) =
      ((Some v, None), (NewBuffer (le16 (word_of_nat (length v)) @ wire_strings v))
         \<lparr>off := off (NewBuffer (le16 (word_of_nat (length v)) @ wire_strings v)) + 2 +
                  length (wire_strings v)\<rparr>)"
    using assms(1,2)
    by (intro ReadStrings_reads [where rest = "[]" and c = "word_of_nat (length v)"])
      (simp_all add: NewBuffer_def unat_count16)
  then have rs: "fst (ReadStrings (snd (WriteStrings (NewBuffer []) v))) = (Some v, None)"
    by (simp add: ws)
  have "ReadByteArrayArray (NewBuffer (le16 (word_of_nat (length w)) @ wire_blobs w)) =
      ((Some w, None), (NewBuffer (le16 (word_of_nat (length w)) @ wire_blobs w))
         \<lparr>off := off (NewBuffer (le16 (word_of_nat (length w)) @ wire_blobs w)) + 2 +
                  length (wire_blobs w)\<rparr>)"
    using assms(3,4)
    by (intro ReadByteArrayArray_reads [where rest = "[]" and c = "word_of_nat (length w)"])
      (simp_all add: NewBuffer_def unat_count16)
  then have rb: "fst (ReadByteArrayArray (snd (WriteByteArrayArray (NewBuffer []) w))) =
      (Some w, None)"
    by (simp add: wb)
  have e: "WriteStrings (NewBuffer []) [] = (None, NewBuffer [0, 0])"
    "WriteByteArrayArray (NewBuffer []) [] = (None, NewBuffer [0, 0])"
    by (simp_all add: ws wb le16_def wire_strings_def wire_blobs_def)
  show ?thesis
    using ws [of v] wb [of w] rs rb e by blast
qed

theorem array_round_trip_witness:
  "fst (ReadStrings (snd (WriteStrings (NewBuffer []) [[97], [], [97], [98, 99]]))) =
     (Some [[97], [], [97], [98, 99]], None) \<and>
   WriteStrings (NewBuffer []) [[97], [], [97], [98, 99]] =
     (None, NewBuffer [4, 0, 97, 0, 0, 97, 0, 98, 99, 0]) \<and>
   fst (ReadByteArrayArray (snd (WriteByteArrayArray (NewBuffer []) [[7, 0], [], [7, 0]]))) =
     (Some [[7, 0], [], [7, 0]], None) \<and>
   WriteByteArrayArray (NewBuffer []) [[7, 0], [], [7, 0]] =
     (None, NewBuffer [3, 0, 2, 0, 0, 0, 7, 0, 0, 0, 0, 0, 2, 0, 0, 0, 7, 0])"
proof -
  have h: "length [[97], [], [97], [98, 99 :: byte]] < 2 ^ 16"
    "\<forall>s\<in>set [[97], [], [97], [98, 99 :: byte]]. 0 \<notin> set s"
    "length [[7, 0], [], [7, 0 :: byte]] < 2 ^ 16"
    "\<forall>x\<in>set [[7, 0], [], [7, 0 :: byte]]. length x < 2 ^ 32"
    by simp_all
  have w: "WriteStrings (NewBuffer []) [[97], [], [97], [98, 99]] =
     (None, NewBuffer [4, 0, 97, 0, 0, 97, 0, 98, 99, 0])"
    "WriteByteArrayArray (NewBuffer []) [[7, 0], [], [7, 0]] =
     (None, NewBuffer [3, 0, 2, 0, 0, 0, 7, 0, 0, 0, 0, 0, 2, 0, 0, 0, 7, 0])"
    by code_simp+
  show ?thesis
    using array_round_trip [OF h] w
    by (simp add: le16_def le32_def wire_strings_def wire_blobs_def)
qed

section \<open>Errors of the time decoder (C7)\<close>

text \<open>
  C7 asks that no operation swallow a failure, and that \<open>ReadTime\<close> fail whenever
  decoding the blob it read fails. \<open>ReadTime\<close> drops the error of \<open>GobDecode\<close>: on
  an empty blob, and on a blob with an unknown version byte, Go's decoder returns an
  error and \<open>ReadTime\<close> returns the zero time with a \<open>nil\<close> error. Whatever
  the decoder, the error of \<open>ReadTime\<close> is that of \<open>ReadByteArray\<close>
  (\<open>ReadTime_error_is_ReadByteArray_error\<close>); \<open>ReadMarshaller\<close> returns the error
  of its decoder (\<open>ReadMarshaller_returns_decode_error\<close>).
\<close>

theorem ReadTime_drops_decode_error:
  "Time_GobDecode [] 0 = (Some (PlatformError ''Time.UnmarshalBinary: no data''), 0) \<and>
   ReadTime Time_GobDecode (NewBuffer [0, 0, 0, 0]) =
     ((0, None), \<lparr>buf = [0, 0, 0, 0], off = 4\<rparr>) \<and>
   Time_GobDecode [9, 9, 9] 0 =
     (Some (PlatformError ''Time.UnmarshalBinary: unsupported version''), 0) \<and>
   ReadTime Time_GobDecode (NewBuffer [3, 0, 0, 0, 9, 9, 9]) =
     ((0, None), \<lparr>buf = [3, 0, 0, 0, 9, 9, 9], off = 7\<rparr>)"
  by code_simp

section \<open>Dates outside the range (C2)\<close>

text \<open>
  C2 asks that a timestamp outside the range of the compact width make the encoder
  fail with a RangeOverflow error. No encoder has such a failure: before the epoch,
  and beyond the range, \<open>WriteDateToUInt32\<close> and \<open>WriteDate\<close> return \<open>nil\<close> and
  write what the conversion of the offset gives (on amd64: the low bits for a negative
  minute count, the saturated duration of \<open>Sub\<close> beyond about 292 years, the low 16
  bits of the day count).
\<close>

theorem date_range_counterexample:
  "WriteDateToUInt32 amd64_uint32 example_epoch (NewBuffer []) (example_epoch - Minute) =
     (None, NewBuffer [255, 255, 255, 255]) \<and>
   WriteDateToUInt32 amd64_uint32 example_epoch (NewBuffer [])
       (example_epoch + 5000000000 * Minute) =
     (None, NewBuffer [243, 159, 41, 9]) \<and>
   WriteDate amd64_uint16 example_epoch (NewBuffer []) (example_epoch - 24 * Hour) =
     (None, NewBuffer [255, 255]) \<and>
   WriteDate amd64_uint16 example_epoch (NewBuffer []) (example_epoch + 65536 * (24 * Hour)) =
     (None, NewBuffer [0, 0])"
  by code_simp

text \<open>
  C2, amended. For every timestamp, inside or outside the representable range,
  \<open>WriteDateToUInt32\<close> and \<open>WriteDate\<close> return no error and append the 4 and the 2
  little-endian bytes of the offset as converted to \<open>uint32\<close> and \<open>uint16\<close>; an
  offset that does not fit is not rejected but converted as the implementation does.
\<close>

theorem date_writes_return_no_error:
  "WriteDateToUInt32 oor IoDateBase b t =
     (None, b\<lparr>buf := buf b @ le32 (GetDateInMinutes oor IoDateBase t)\<rparr>) \<and>
   WriteDate oor' IoDateBase b t =
     (None, b\<lparr>buf := buf b @
        le16 (uint16_of_float64 oor' (float64_div (Duration_Hours (Time_Sub t IoDateBase)) 24))\<rparr>)"
  by (simp add: WriteDateToUInt32_def WriteDate_def WriteUint32_appends WriteUint16_appends
      le32_def le16_def)

theorem date_writes_return_no_error_witness:
  "WriteDateToUInt32 amd64_uint32 example_epoch (NewBuffer []) (example_epoch + 90 * Minute) =
     (None, NewBuffer [90, 0, 0, 0]) \<and>
   WriteDate amd64_uint16 example_epoch (NewBuffer []) (example_epoch + 300 * (24 * Hour)) =
     (None, NewBuffer [44, 1])"
proof -
  have "le32 (GetDateInMinutes amd64_uint32 example_epoch (example_epoch + 90 * Minute)) =
      [90, 0, 0, 0]"
    by code_simp
  moreover have "le16 (uint16_of_float64 amd64_uint16
      (float64_div (Duration_Hours (Time_Sub (example_epoch + 300 * (24 * Hour)) example_epoch))
         24)) = [44, 1]"
    by code_simp
  ultimately show ?thesis
    using date_writes_return_no_error
      [of amd64_uint32 example_epoch "NewBuffer []" "example_epoch + 90 * Minute" amd64_uint16]
      date_writes_return_no_error
      [of amd64_uint32 example_epoch "NewBuffer []" "example_epoch + 300 * (24 * Hour)"
          amd64_uint16]
    by (simp add: NewBuffer_def)
qed

section \<open>Minutes round trip (C4)\<close>




end
